theory Spec2Isabelle
  imports Main "HOL-Library.Word"
begin

section \<open>Common Go notions\<close>

text \<open>
  A Go \<open>error\<close> is an interface value compared by identity. Two origins occur in package
  \<open>rpc\<close>: an error value handed back by an external collaborator (the RPC client, a
  contract binding) and passed on unchanged, and an error value made on the spot by
  \<open>fmt.Errorf\<close>, which is a new value at every call and so never the collaborator's.
  A collaborator's error is kept by its message.
\<close>

type_synonym remote_error = string

datatype error = Remote remote_error | Errorf string

text \<open>
  \<open>NilDereference\<close> is the run-time panic of reading through a nil pointer,
  \<open>PanicError e\<close> an explicit \<open>panic(err)\<close>, \<open>NegativeWaitGroupCounter\<close> the panic of
  \<open>sync.WaitGroup\<close> when \<open>Done\<close> takes the counter below zero.
\<close>

datatype panic = NilDereference | PanicError error | NegativeWaitGroupCounter

text \<open>
  What a call or a step of a goroutine does: it returns (goes on), it panics, or it
  blocks (a channel operation or a \<open>Wait\<close> that cannot proceed in this state).
\<close>

datatype 'a go = Returns 'a | Panics panic | Blocks

definition and_then :: "'a go \<Rightarrow> ('a \<Rightarrow> 'b go) \<Rightarrow> 'b go" where
  "and_then r f = (case r of Returns x \<Rightarrow> f x | Panics p \<Rightarrow> Panics p | Blocks \<Rightarrow> Blocks)"

type_synonym address = "160 word"

section \<open>The bridge\<close>

text \<open>
  A buffered Go channel: a capacity and the queue of buffered values, oldest first. A send
  needs room, a receive needs a value; otherwise the operation blocks.
\<close>

record 'a chan =
  cap :: nat
  buf :: "'a list"

definition make_chan :: "nat \<Rightarrow> 'a chan" where
  "make_chan n = \<lparr> cap = n, buf = [] \<rparr>"

definition chan_send :: "'a \<Rightarrow> 'a chan \<Rightarrow> 'a chan go" where
  "chan_send v c = (if length (buf c) < cap c then Returns (c\<lparr>buf := buf c @ [v]\<rparr>) else Blocks)"

definition chan_recv :: "'a chan \<Rightarrow> ('a \<times> 'a chan) go" where
  "chan_recv c = (case buf c of [] \<Rightarrow> Blocks | v # rest \<Rightarrow> Returns (v, c\<lparr>buf := rest\<rparr>))"

text \<open>\<open>bind.CallOpts\<close>, as \<open>DefaultCallOpts\<close> fills it.\<close>

datatype ctx = Background

record CallOpts =
  Pending :: bool
  From :: address
  BlockNumber :: "int option"
  Context :: ctx

text \<open>
  Pointers to objects made by collaborators (a contract binding, a subscription) and to
  \<open>singleflight\<close> calls are numbers; \<open>etc.Header\<close> is carried as it comes and stands for
  itself.
\<close>

type_synonym ptr = nat

type_synonym Header = nat

datatype ABI = ParsedABI string

text \<open>
  \<open>singleflight.Group\<close>: the map \<open>m\<close> from a key to the call in flight for it.
\<close>

type_synonym Group = "string \<rightharpoonup> ptr"

text \<open>
  \<open>ChainBridge\<close>. The clients \<open>rpc\<close> and \<open>eth\<close> and the logger are collaborators and come in
  as arguments where a function uses them; of the configuration the two addresses that
  the functions below read are kept.
\<close>

record ChainBridge =
  cg :: Group
  sigConfig_Address :: address
  sfcConfig_SFCContract :: address
  sfcAbi :: "ABI option"
  sfcContract :: "ptr option"
  wg :: int
  sigClose :: "bool chan"
  headers :: "Header chan"

definition rpcHeadProxyChannelCapacity :: nat where
  "rpcHeadProxyChannelCapacity = 10000"

section \<open>Lazily made handles (\<open>SfcContract\<close>, \<open>SfcAbi\<close>)\<close>

text \<open>
  Both functions answer with the outcome, the bridge as the call leaves it, and what the
  call did to its collaborators, in order: a constructor call, a critical log line.
  \<open>NewSfcContract\<close> is the generated constructor, \<open>abi_JSON\<close> the parser and
  \<open>SfcContractABI\<close> the generated text it is given.
\<close>

datatype effect = NewSfcContract_call address | abi_JSON_call string | Criticalf string

definition SfcContract ::
  "(address \<Rightarrow> remote_error + ptr) \<Rightarrow> 'a ChainBridge_scheme
     \<Rightarrow> ptr go \<times> 'a ChainBridge_scheme \<times> effect list" where
  "SfcContract NewSfcContract chain =
     (case sfcContract chain of
        None \<Rightarrow>
          (case NewSfcContract (sfcConfig_SFCContract chain) of
             Inl err \<Rightarrow>
               (Panics (PanicError (Remote err)),
                chain\<lparr>sfcContract := None\<rparr>,
                [NewSfcContract_call (sfcConfig_SFCContract chain),
                 Criticalf ''failed to instantiate SFC contract; %s''])
           | Inr c \<Rightarrow>
               (Returns c,
                chain\<lparr>sfcContract := Some c\<rparr>,
                [NewSfcContract_call (sfcConfig_SFCContract chain)]))
      | Some c \<Rightarrow> (Returns c, chain, []))"

definition SfcAbi ::
  "(string \<Rightarrow> remote_error + ABI) \<Rightarrow> string \<Rightarrow> 'a ChainBridge_scheme
     \<Rightarrow> ABI go \<times> 'a ChainBridge_scheme \<times> effect list" where
  "SfcAbi abi_JSON SfcContractABI chain =
     (case sfcAbi chain of
        None \<Rightarrow>
          (case abi_JSON SfcContractABI of
             Inl err \<Rightarrow>
               (Panics (PanicError (Remote err)),
                chain,
                [abi_JSON_call SfcContractABI,
                 Criticalf ''failed to parse SFC contract ABI; %s''])
           | Inr ab \<Rightarrow>
               (Returns ab,
                chain\<lparr>sfcAbi := Some ab\<rparr>,
                [abi_JSON_call SfcContractABI]))
      | Some ab \<Rightarrow> (Returns ab, chain, []))"

section \<open>The block observer (\<open>observeBlocks\<close>, \<open>run\<close>, \<open>terminate\<close>)\<close>

text \<open>
  Time is counted in nanoseconds, as \<open>time.Duration\<close> does.
\<close>

definition Second :: nat where
  "Second = 1000000000"

definition chainHeadsObserverSubscribeTick :: nat where
  "chainHeadsObserverSubscribeTick = 30 * Second"

text \<open>
  An \<open>ethereum.Subscription\<close> as the RPC client keeps it: live (the client forwards the
  notifications of the subscription into the channel it was given at \<open>EthSubscribe\<close>),
  failed (an error waits on \<open>Err()\<close> and nothing is forwarded any more), or unsubscribed.
\<close>

datatype subscription = Live | Failed remote_error | Unsubscribed

text \<open>
  Where the goroutine \<open>observeBlocks\<close> stands: not started; inside \<open>blockSubscription\<close>,
  waiting for \<open>EthSubscribe\<close> to answer (line 38 or line 47; both go on at the top of the
  loop); at the \<open>select\<close> on \<open>sigClose\<close> and the timer, with the time at which the timer
  fires; at the \<open>select\<close> on \<open>sigClose\<close> and \<open>sub.Err()\<close>; returned.
\<close>

datatype control = NotStarted | Subscribing | RetryWait nat | Listening | Exited

text \<open>
  What is written down as it happens, with the time and the one who did it.
\<close>

datatype actor = Observer | RpcClient ptr | Reader

datatype action =
    EthSubscribe_call
  | Subscribed ptr
  | Criticalf_log remote_error
  | Errorf_log remote_error
  | Unsubscribe ptr
  | wg_Done
  | Send Header
  | Receive Header

text \<open>
  The bridge together with its goroutine and its surroundings: the control point and the
  local variable \<open>sub\<close> of \<open>observeBlocks\<close>, the subscriptions the RPC client has made (a
  subscription's pointer is its position), the clock, and the history.
\<close>

record system = ChainBridge +
  control :: control
  sub :: "ptr option"
  subscriptions :: "subscription list"
  now :: nat
  history :: "(nat \<times> actor \<times> action) list"

definition logged :: "actor \<Rightarrow> action \<Rightarrow> system \<Rightarrow> system" where
  "logged who act s = s\<lparr>history := history s @ [(now s, who, act)]\<rparr>"

text \<open>
  The deferred function of \<open>observeBlocks\<close> (lines 30 to 36), run on return.
\<close>

definition observer_exit :: "system \<Rightarrow> system go" where
  "observer_exit s =
     (let s1 = (case sub s of
                  None \<Rightarrow> s
                | Some p \<Rightarrow>
                    logged Observer (Unsubscribe p)
                      (s\<lparr>subscriptions := (subscriptions s)[p := Unsubscribed]\<rparr>))
      in if wg s1 - 1 < 0 then Panics NegativeWaitGroupCounter
         else Returns (logged Observer wg_Done (s1\<lparr>wg := wg s1 - 1, control := Exited\<rparr>)))"

text \<open>
  The top of the loop (lines 39 to 43, or 39 to 53): with \<open>sub == nil\<close> a timer is started
  and the goroutine stands at the first \<open>select\<close>, otherwise at the second.
\<close>

definition loop_top :: "system \<Rightarrow> system" where
  "loop_top s =
     (case sub s of
        None \<Rightarrow> s\<lparr>control := RetryWait (now s + chainHeadsObserverSubscribeTick)\<rparr>
      | Some p \<Rightarrow> s\<lparr>control := Listening\<rparr>)"

text \<open>
  \<open>blockSubscription\<close> returns (lines 66 to 72) and its result is assigned to \<open>sub\<close>;
  \<open>outcome\<close> is the error of \<open>EthSubscribe\<close>, if any. The new subscription was given
  \<open>chain.headers\<close>.
\<close>

definition blockSubscription_returns :: "remote_error option \<Rightarrow> system \<Rightarrow> system go" where
  "blockSubscription_returns outcome s =
     (if control s \<noteq> Subscribing then Blocks
      else case outcome of
             Some err \<Rightarrow> Returns (loop_top (logged Observer (Criticalf_log err) (s\<lparr>sub := None\<rparr>)))
           | None \<Rightarrow>
               Returns (loop_top (logged Observer (Subscribed (length (subscriptions s)))
                 (s\<lparr>subscriptions := subscriptions s @ [Live],
                    sub := Some (length (subscriptions s))\<rparr>))))"

text \<open>The three cases of the two \<open>select\<close> statements.\<close>

definition at_select :: "system \<Rightarrow> bool" where
  "at_select s = (case control s of RetryWait d \<Rightarrow> True | Listening \<Rightarrow> True | _ \<Rightarrow> False)"

definition select_sigClose :: "system \<Rightarrow> system go" where
  "select_sigClose s =
     (if at_select s
      then and_then (chan_recv (sigClose s)) (\<lambda>(v, c). observer_exit (s\<lparr>sigClose := c\<rparr>))
      else Blocks)"

definition select_timer :: "system \<Rightarrow> system go" where
  "select_timer s =
     (case control s of
        RetryWait d \<Rightarrow>
          if d \<le> now s then Returns (logged Observer EthSubscribe_call (s\<lparr>control := Subscribing\<rparr>))
          else Blocks
      | _ \<Rightarrow> Blocks)"

definition failure_of :: "system \<Rightarrow> remote_error option" where
  "failure_of s =
     (case sub s of
        None \<Rightarrow> None
      | Some p \<Rightarrow>
          if p < length (subscriptions s)
          then (case subscriptions s ! p of Failed err \<Rightarrow> Some err | _ \<Rightarrow> None)
          else None)"

definition select_err :: "system \<Rightarrow> system go" where
  "select_err s =
     (if control s = Listening
      then (case failure_of s of
              Some err \<Rightarrow> Returns (loop_top ((logged Observer (Errorf_log err) s)\<lparr>sub := None\<rparr>))
            | None \<Rightarrow> Blocks)
      else Blocks)"

text \<open>
  The goroutine is parked when it stands at a \<open>select\<close> none of whose cases can proceed:
  nothing on \<open>sigClose\<close>, and the timer not yet due or the subscription still live.
\<close>

definition parked :: "system \<Rightarrow> bool" where
  "parked s =
     (buf (sigClose s) = [] \<and>
      (case control s of
         RetryWait d \<Rightarrow> now s < d
       | Listening \<Rightarrow>
           (case sub s of
              Some p \<Rightarrow> p < length (subscriptions s) \<and> subscriptions s ! p = Live
            | None \<Rightarrow> False)
       | _ \<Rightarrow> False))"

text \<open>
  \<open>chain.sigClose <- true\<close> (line 204). A send to a channel on which a goroutine is
  parked hands the value to that goroutine, whose \<open>select\<close> then goes on with this case:
  \<open>observeBlocks\<close> returns. Otherwise the value goes into the buffer, if there is room.
\<close>

definition sigClose_send :: "system \<Rightarrow> system go" where
  "sigClose_send s =
     (if parked s then observer_exit s
      else and_then (chan_send True (sigClose s)) (\<lambda>c. Returns (s\<lparr>sigClose := c\<rparr>)))"

text \<open>\<open>chain.wg.Wait()\<close> (line 205).\<close>

definition wg_Wait :: "system \<Rightarrow> system go" where
  "wg_Wait s = (if wg s = 0 then Returns s else Blocks)"

text \<open>
  \<open>terminate\<close>, run without anything else happening in between: the send, then the wait.
\<close>

definition terminate :: "system \<Rightarrow> system go" where
  "terminate s = and_then (sigClose_send s) wg_Wait"

text \<open>
  What the surroundings do: the RPC client marks a live subscription as failed; it
  forwards a head of a live subscription into \<open>chain.headers\<close>; a reader takes a head from
  the channel \<open>ObservedBlockProxy\<close> gave it; time passes.
\<close>

definition subscription_fails :: "ptr \<Rightarrow> remote_error \<Rightarrow> system \<Rightarrow> system go" where
  "subscription_fails p err s =
     (if p < length (subscriptions s) \<and> subscriptions s ! p = Live
      then Returns (s\<lparr>subscriptions := (subscriptions s)[p := Failed err]\<rparr>)
      else Blocks)"

definition head_arrives :: "ptr \<Rightarrow> Header \<Rightarrow> system \<Rightarrow> system go" where
  "head_arrives p h s =
     (if p < length (subscriptions s) \<and> subscriptions s ! p = Live
      then and_then (chan_send h (headers s))
             (\<lambda>c. Returns (logged (RpcClient p) (Send h) (s\<lparr>headers := c\<rparr>)))
      else Blocks)"

definition ObservedBlockProxy :: "'a ChainBridge_scheme \<Rightarrow> Header chan" where
  "ObservedBlockProxy chain = headers chain"

definition reader_takes :: "system \<Rightarrow> system go" where
  "reader_takes s =
     and_then (chan_recv (ObservedBlockProxy s))
       (\<lambda>(h, c). Returns (logged Reader (Receive h) (s\<lparr>headers := c\<rparr>)))"

datatype event =
    EthSubscribe_returns "remote_error option"
  | Select_sigClose
  | Select_timer
  | Select_err
  | Subscription_fails ptr remote_error
  | Head_arrives ptr Header
  | Reader_takes
  | Time_passes nat
  | Terminate_send
  | Terminate_wait

fun step :: "event \<Rightarrow> system \<Rightarrow> system go" where
  "step (EthSubscribe_returns outcome) s = blockSubscription_returns outcome s"
| "step Select_sigClose s = select_sigClose s"
| "step Select_timer s = select_timer s"
| "step Select_err s = select_err s"
| "step (Subscription_fails p err) s = subscription_fails p err s"
| "step (Head_arrives p h) s = head_arrives p h s"
| "step Reader_takes s = reader_takes s"
| "step (Time_passes d) s = Returns (s\<lparr>now := now s + d\<rparr>)"
| "step Terminate_send s = sigClose_send s"
| "step Terminate_wait s = wg_Wait s"

text \<open>
  A schedule is a list of events; it is carried out from a state as long as each event
  can happen.
\<close>

fun execute :: "event list \<Rightarrow> system \<Rightarrow> system go" where
  "execute [] s = Returns s"
| "execute (e # es) s = and_then (step e s) (execute es)"

text \<open>
  \<open>run\<close> (lines 197 to 200): the counter goes up and the goroutine starts with its call of
  \<open>blockSubscription\<close>.
\<close>

definition run :: "system \<Rightarrow> system" where
  "run s = logged Observer EthSubscribe_call (s\<lparr>wg := wg s + 1, control := Subscribing\<rparr>)"

text \<open>
  \<open>New\<close> (lines 134 to 170). \<open>connect\<close> is the error of the two \<open>Dial\<close> calls, if any; of
  \<open>config.Config\<close> the two addresses are kept.
\<close>

record Config =
  MySignature_Address :: address
  Staking_SFCContract :: address

definition New :: "Config \<Rightarrow> remote_error option \<Rightarrow> error + system" where
  "New cfg connect =
     (case connect of
        Some err \<Rightarrow> Inl (Remote err)
      | None \<Rightarrow>
          Inr (run \<lparr> cg = Map.empty,
                     sigConfig_Address = MySignature_Address cfg,
                     sfcConfig_SFCContract = Staking_SFCContract cfg,
                     sfcAbi = None,
                     sfcContract = None,
                     wg = 0,
                     sigClose = make_chan 1,
                     headers = make_chan rpcHeadProxyChannelCapacity,
                     control = NotStarted,
                     sub = None,
                     subscriptions = [],
                     now = 0,
                     history = [] \<rparr>))"

text \<open>The states a bridge made by \<open>New\<close> can come to.\<close>

definition reachable :: "system \<Rightarrow> bool" where
  "reachable s = (\<exists>cfg s0 es. New cfg None = Inr s0 \<and> execute es s0 = Returns s)"

subsection \<open>What holds in every reachable state\<close>

text \<open>
  At most the subscription that \<open>observeBlocks\<close> holds while it listens is live; the
  variable \<open>sub\<close> fits the control point, and after the return a subscription still held
  is unsubscribed; the counter of the wait group is one until \<open>observeBlocks\<close> has
  returned and zero afterwards, and the channels keep their capacities.
\<close>

definition one_live :: "system \<Rightarrow> bool" where
  "one_live s =
     (\<forall>p. p < length (subscriptions s) \<longrightarrow> subscriptions s ! p = Live
          \<longrightarrow> control s = Listening \<and> sub s = Some p)"

definition holds_sub :: "system \<Rightarrow> bool" where
  "holds_sub s =
     ((control s = Listening \<longrightarrow> (\<exists>p. sub s = Some p \<and> p < length (subscriptions s)))
      \<and> (control s \<noteq> Listening \<longrightarrow> control s \<noteq> Exited \<longrightarrow> sub s = None)
      \<and> (control s = Exited \<longrightarrow>
            (case sub s of
               None \<Rightarrow> True
             | Some p \<Rightarrow> p < length (subscriptions s) \<and> subscriptions s ! p = Unsubscribed)))"

definition counted :: "system \<Rightarrow> bool" where
  "counted s =
     (control s \<noteq> NotStarted \<and> wg s = (if control s = Exited then 0 else 1)
      \<and> cap (sigClose s) = 1 \<and> cap (headers s) = rpcHeadProxyChannelCapacity)"

definition wired :: "system \<Rightarrow> bool" where
  "wired s = (counted s \<and> holds_sub s \<and> one_live s)"

section \<open>Block lookup (\<open>Block\<close>, \<open>BlockByHash\<close>)\<close>

text \<open>
  \<open>types.Block\<close> is declared outside the files at hand; the record has the fields the two
  functions read. \<open>hexutil.Uint64\<close> is a \<open>uint64\<close>.
\<close>

record Block =
  Number :: "64 word"
  TimeStamp :: "64 word"
  Hash :: "256 word"

text \<open>
  \<open>chain.rpc.Call(&block, method, arg, false)\<close> decodes the node's answer into a
  zero-initialised \<open>block\<close>. The client is a collaborator: \<open>rpc_Call method arg\<close> is what
  the call leaves behind, the error or the decoded block.
\<close>

type_synonym rpc_client = "string \<Rightarrow> string \<Rightarrow> remote_error + Block"

text \<open>
  Both functions take a \<open>*string\<close> and read through it in their first statement (the
  argument of \<open>Debugf\<close>), so a nil pointer panics. The logger calls have no influence on
  the result and are left out. The zero-number test of \<open>Block\<close> is commented out in the
  source, so the model has none.
\<close>

definition Block :: "rpc_client \<Rightarrow> string option \<Rightarrow> (error + Block) go" where
  "Block rpc_Call numTag =
     (case numTag of
        None \<Rightarrow> Panics NilDereference
      | Some tag \<Rightarrow>
          (case rpc_Call ''eth_getBlockByNumber'' tag of
             Inl err \<Rightarrow> Returns (Inl (Remote err))
           | Inr block \<Rightarrow> Returns (Inr block)))"

definition BlockByHash :: "rpc_client \<Rightarrow> string option \<Rightarrow> (error + Block) go" where
  "BlockByHash rpc_Call hash =
     (case hash of
        None \<Rightarrow> Panics NilDereference
      | Some h \<Rightarrow>
          (case rpc_Call ''eth_getBlockByHash'' h of
             Inl err \<Rightarrow> Returns (Inl (Remote err))
           | Inr block \<Rightarrow>
               if Number block = 0 then Returns (Inl (Errorf ''block not found''))
               else Returns (Inr block)))"

section \<open>DeFi token registry (\<open>DefiTokens\<close>)\<close>












subsection \<open>Two small registries\<close>





section \<open>Block lookup: results\<close>

text \<open>
  C9. \<open>BlockByHash\<close> returns the error "block not found" exactly when the RPC call
  succeeds and the decoded block has number zero, so it never returns a block with number
  zero (the genesis block cannot be fetched by hash); \<open>Block\<close> has no such test and
  returns whatever block the call decoded, number zero included.
\<close>

theorem BlockByHash_not_found_iff_zero_number:
  "(BlockByHash rpc_Call hash = Returns (Inl (Errorf ''block not found''))
      \<longleftrightarrow> (\<exists>h b. hash = Some h \<and> rpc_Call ''eth_getBlockByHash'' h = Inr b \<and> Number b = 0))
   \<and> (\<forall>b. BlockByHash rpc_Call hash = Returns (Inr b) \<longrightarrow> Number b \<noteq> 0)
   \<and> (\<forall>tag b. rpc_Call ''eth_getBlockByNumber'' tag = Inr b
         \<longrightarrow> Block rpc_Call (Some tag) = Returns (Inr b))"
  by (auto simp: BlockByHash_def Block_def split: option.splits sum.splits if_splits)

theorem BlockByHash_not_found_iff_zero_number_witness:
  "BlockByHash (\<lambda>m a. Inr \<lparr>Number = 0, TimeStamp = 0, Hash = 0\<rparr>) (Some ''0x00'')
     = Returns (Inl (Errorf ''block not found''))
   \<and> BlockByHash (\<lambda>m a. Inr \<lparr>Number = 7, TimeStamp = 0, Hash = 0\<rparr>) (Some ''0x07'')
     = Returns (Inr \<lparr>Number = 7, TimeStamp = 0, Hash = 0\<rparr>)
   \<and> (7::64 word) \<noteq> 0
   \<and> Block (\<lambda>m a. Inr \<lparr>Number = 0, TimeStamp = 0, Hash = 0\<rparr>) (Some ''0x0'')
     = Returns (Inr \<lparr>Number = 0, TimeStamp = 0, Hash = 0\<rparr>)"
  using BlockByHash_not_found_iff_zero_number
    [of "\<lambda>m a. Inr \<lparr>Number = 0, TimeStamp = 0, Hash = 0\<rparr>" "Some ''0x00''"]
    BlockByHash_not_found_iff_zero_number
    [of "\<lambda>m a. Inr \<lparr>Number = 7, TimeStamp = 0, Hash = 0\<rparr>" "Some ''0x07''"]
  by (simp add: BlockByHash_def Block_def)

section \<open>DeFi token registry: results\<close>







section \<open>The block observer: what each step does\<close>

lemma and_then_Returns:
  "and_then r f = Returns y \<longleftrightarrow> (\<exists>x. r = Returns x \<and> f x = Returns y)"
  by (cases r) (simp_all add: and_then_def)

lemma chan_recv_Returns:
  "chan_recv c = Returns (v, c') \<longleftrightarrow> (\<exists>rest. buf c = v # rest \<and> c' = c\<lparr>buf := rest\<rparr>)"
  by (cases "buf c") (auto simp: chan_recv_def)

lemma chan_send_Returns:
  "chan_send v c = Returns c' \<longleftrightarrow> (length (buf c) < cap c \<and> c' = c\<lparr>buf := buf c @ [v]\<rparr>)"
  by (auto simp: chan_send_def)

lemma select_timer_effect:
  "select_timer s = Returns s' \<Longrightarrow>
     (\<exists>d. control s = RetryWait d \<and> d \<le> now s)
     \<and> s' = s\<lparr>control := Subscribing, history := history s @ [(now s, Observer, EthSubscribe_call)]\<rparr>"
  by (simp add: select_timer_def logged_def split: control.splits if_splits)

lemma reader_takes_effect:
  "reader_takes s = Returns s' \<Longrightarrow>
     \<exists>h rest. buf (headers s) = h # rest
       \<and> s' = s\<lparr>headers := (headers s)\<lparr>buf := rest\<rparr>,
                history := history s @ [(now s, Reader, Receive h)]\<rparr>"
  unfolding reader_takes_def ObservedBlockProxy_def and_then_Returns
  by (auto simp: chan_recv_Returns logged_def)

lemma head_arrives_effect:
  "head_arrives p h s = Returns s' \<Longrightarrow>
     p < length (subscriptions s) \<and> subscriptions s ! p = Live
     \<and> length (buf (headers s)) < cap (headers s)
     \<and> s' = s\<lparr>headers := (headers s)\<lparr>buf := buf (headers s) @ [h]\<rparr>,
              history := history s @ [(now s, RpcClient p, Send h)]\<rparr>"
  unfolding head_arrives_def
  by (auto simp: and_then_Returns chan_send_Returns logged_def split: if_splits)

lemma subscription_fails_effect:
  "subscription_fails p err s = Returns s' \<Longrightarrow>
     p < length (subscriptions s) \<and> subscriptions s ! p = Live
     \<and> s' = s\<lparr>subscriptions := (subscriptions s)[p := Failed err]\<rparr>"
  by (simp add: subscription_fails_def split: if_splits)

lemma observer_exit_effect:
  "observer_exit s = Returns s' \<Longrightarrow>
     0 < wg s \<and>
     s' = s\<lparr>wg := wg s - 1, control := Exited,
            subscriptions := (case sub s of None \<Rightarrow> subscriptions s
                              | Some p \<Rightarrow> (subscriptions s)[p := Unsubscribed]),
            history := history s @ (case sub s of None \<Rightarrow> []
                                    | Some p \<Rightarrow> [(now s, Observer, Unsubscribe p)])
                       @ [(now s, Observer, wg_Done)]\<rparr>"
  by (cases "sub s") (auto simp: observer_exit_def logged_def Let_def split: if_splits)

lemma blockSubscription_returns_effect:
  "blockSubscription_returns outcome s = Returns s' \<Longrightarrow>
     control s = Subscribing \<and>
     s' = (case outcome of
             Some err \<Rightarrow>
               s\<lparr>sub := None,
                 control := RetryWait (now s + chainHeadsObserverSubscribeTick),
                 history := history s @ [(now s, Observer, Criticalf_log err)]\<rparr>
           | None \<Rightarrow>
               s\<lparr>sub := Some (length (subscriptions s)),
                 subscriptions := subscriptions s @ [Live],
                 control := Listening,
                 history := history s @ [(now s, Observer, Subscribed (length (subscriptions s)))]\<rparr>)"
  by (cases outcome) (auto simp: blockSubscription_returns_def logged_def loop_top_def split: if_splits)

lemma select_err_effect:
  "select_err s = Returns s' \<Longrightarrow>
     control s = Listening \<and>
     (\<exists>p err. sub s = Some p \<and> p < length (subscriptions s) \<and> subscriptions s ! p = Failed err
        \<and> s' = s\<lparr>sub := None,
                 control := RetryWait (now s + chainHeadsObserverSubscribeTick),
                 history := history s @ [(now s, Observer, Errorf_log err)]\<rparr>)"
  by (auto simp: select_err_def failure_of_def logged_def loop_top_def
      split: if_splits option.splits subscription.splits)

lemma select_sigClose_effect:
  "select_sigClose s = Returns s' \<Longrightarrow>
     at_select s \<and>
     (\<exists>v rest. buf (sigClose s) = v # rest
        \<and> observer_exit (s\<lparr>sigClose := (sigClose s)\<lparr>buf := rest\<rparr>\<rparr>) = Returns s')"
  by (auto simp: select_sigClose_def and_then_Returns chan_recv_Returns split: if_splits)

lemma sigClose_send_effect:
  "sigClose_send s = Returns s' \<Longrightarrow>
     (parked s \<and> observer_exit s = Returns s')
     \<or> (\<not> parked s \<and> length (buf (sigClose s)) < cap (sigClose s)
          \<and> s' = s\<lparr>sigClose := (sigClose s)\<lparr>buf := buf (sigClose s) @ [True]\<rparr>\<rparr>)"
  by (auto simp: sigClose_send_def and_then_Returns chan_send_Returns split: if_splits)

section \<open>The block observer: invariants\<close>

lemma one_liveI:
  "(\<And>p. p < length (subscriptions s) \<Longrightarrow> subscriptions s ! p = Live
        \<Longrightarrow> control s = Listening \<and> sub s = Some p) \<Longrightarrow> one_live s"
  unfolding one_live_def by blast

lemma one_liveD:
  "one_live s \<Longrightarrow> p < length (subscriptions s) \<Longrightarrow> subscriptions s ! p = Live
     \<Longrightarrow> control s = Listening \<and> sub s = Some p"
  unfolding one_live_def by blast

lemma wired_New: "New cfg None = Inr s \<Longrightarrow> wired s"
  by (clarsimp simp: New_def run_def wired_def counted_def holds_sub_def one_live_def
      logged_def make_chan_def)

lemma one_live_frame:
  assumes "one_live s" and "control s' = control s" and "sub s' = sub s"
    and "subscriptions s' = subscriptions s"
  shows "one_live s'"
proof (rule one_liveI)
  fix p
  assume "p < length (subscriptions s')" "subscriptions s' ! p = Live"
  with assms(4) have "p < length (subscriptions s)" "subscriptions s ! p = Live"
    by simp_all
  from one_liveD [OF assms(1) this] assms(2,3)
  show "control s' = Listening \<and> sub s' = Some p"
    by simp
qed

lemma wired_frame:
  assumes "wired s" and "control s' = control s" and "sub s' = sub s"
    and "subscriptions s' = subscriptions s" and "wg s' = wg s"
    and "cap (sigClose s') = cap (sigClose s)" and "cap (headers s') = cap (headers s)"
  shows "wired s'"
proof -
  from assms have "counted s'" "holds_sub s'"
    by (simp_all add: wired_def counted_def holds_sub_def cong: option.case_cong)
  moreover from assms have "one_live s'"
    by (auto simp: wired_def intro: one_live_frame)
  ultimately show ?thesis by (simp add: wired_def)
qed

lemma wired_time: "wired s \<Longrightarrow> wired (s\<lparr>now := t\<rparr>)"
  by (erule wired_frame) simp_all

lemma wired_wait: "wired s \<Longrightarrow> wg_Wait s = Returns s' \<Longrightarrow> wired s'"
  by (clarsimp simp: wg_Wait_def split: if_splits)

lemma wired_reader:
  assumes "wired s" and "reader_takes s = Returns s'"
  shows "wired s'"
proof -
  from reader_takes_effect [OF assms(2)] obtain h rest where
    s': "s' = s\<lparr>headers := (headers s)\<lparr>buf := rest\<rparr>,
                history := history s @ [(now s, Reader, Receive h)]\<rparr>"
    by blast
  show ?thesis
    unfolding s' by (rule wired_frame [OF assms(1)]) simp_all
qed

lemma wired_head:
  assumes "wired s" and "head_arrives p h s = Returns s'"
  shows "wired s'"
proof -
  from head_arrives_effect [OF assms(2)]
  have s': "s' = s\<lparr>headers := (headers s)\<lparr>buf := buf (headers s) @ [h]\<rparr>,
              history := history s @ [(now s, RpcClient p, Send h)]\<rparr>"
    by simp
  show ?thesis
    unfolding s' by (rule wired_frame [OF assms(1)]) simp_all
qed

lemma wired_timer:
  assumes "wired s" and "select_timer s = Returns s'"
  shows "wired s'"
proof -
  from select_timer_effect [OF assms(2)] obtain d where
    c: "control s = RetryWait d"
    and s': "s' = s\<lparr>control := Subscribing,
                    history := history s @ [(now s, Observer, EthSubscribe_call)]\<rparr>"
    by blast
  from assms(1) have w: "counted s" "holds_sub s" "one_live s"
    by (simp_all add: wired_def)
  from w(1,2) c have "counted s'" "holds_sub s'"
    unfolding s' by (simp_all add: counted_def holds_sub_def)
  moreover have "one_live s'"
    unfolding s' using c
    by (intro one_liveI) (auto dest: one_liveD [OF w(3)])
  ultimately show ?thesis by (simp add: wired_def)
qed

lemma wired_fails:
  assumes "wired s" and "subscription_fails p err s = Returns s'"
  shows "wired s'"
proof -
  from subscription_fails_effect [OF assms(2)]
  have s': "s' = s\<lparr>subscriptions := (subscriptions s)[p := Failed err]\<rparr>"
    and p: "p < length (subscriptions s)" "subscriptions s ! p = Live"
    by simp_all
  from assms(1) have w: "counted s" "holds_sub s" "one_live s"
    by (simp_all add: wired_def)
  from one_liveD [OF w(3) p] have c: "control s = Listening" "sub s = Some p"
    by simp_all
  from w(1) have "counted s'"
    unfolding s' by (simp add: counted_def)
  moreover from w(2) c p have "holds_sub s'"
    unfolding s' by (simp add: holds_sub_def)
  moreover have "one_live s'"
    unfolding s' using p
    by (intro one_liveI) (auto simp: nth_list_update dest: one_liveD [OF w(3)] split: if_splits)
  ultimately show ?thesis by (simp add: wired_def)
qed

lemma no_live_one_live:
  assumes "Live \<notin> set (subscriptions s)"
  shows "one_live s"
proof (rule one_liveI)
  fix p
  assume a: "p < length (subscriptions s)" "subscriptions s ! p = Live"
  from nth_mem [OF a(1)] a(2) assms show "control s = Listening \<and> sub s = Some p"
    by simp
qed

lemma wired_exit:
  assumes "wired s" and "control s \<noteq> Exited" and "observer_exit s = Returns s'"
  shows "wired s' \<and> control s' = Exited \<and> Live \<notin> set (subscriptions s')"
proof -
  from assms(1) have w: "counted s" "holds_sub s" "one_live s"
    by (simp_all add: wired_def)
  show ?thesis
  proof (cases "sub s")
    case None
    from observer_exit_effect [OF assms(3)] None
    have s': "s' = s\<lparr>wg := wg s - 1, control := Exited, subscriptions := subscriptions s,
                     history := history s @ [(now s, Observer, wg_Done)]\<rparr>"
      by simp
    have nolive: "Live \<notin> set (subscriptions s)"
      using None by (auto simp: in_set_conv_nth dest: one_liveD [OF w(3)])
    from w(1,2) assms(2) None have "counted s'" "holds_sub s'"
      unfolding s' by (simp_all add: counted_def holds_sub_def)
    moreover have "one_live s'"
      by (rule no_live_one_live) (simp add: s' nolive)
    ultimately show ?thesis using nolive by (simp add: wired_def s')
  next
    case (Some p)
    from observer_exit_effect [OF assms(3)] Some
    have s': "s' = s\<lparr>wg := wg s - 1, control := Exited,
                     subscriptions := (subscriptions s)[p := Unsubscribed],
                     history := history s @ [(now s, Observer, Unsubscribe p),
                                             (now s, Observer, wg_Done)]\<rparr>"
      by simp
    from w(2) assms(2) Some have p: "p < length (subscriptions s)"
      by (cases "control s = Listening") (simp_all add: holds_sub_def)
    have nolive: "Live \<notin> set ((subscriptions s)[p := Unsubscribed])"
      using Some p
      by (auto simp: in_set_conv_nth nth_list_update dest: one_liveD [OF w(3)] split: if_splits)
    from w(1,2) assms(2) Some p have "counted s'" "holds_sub s'"
      unfolding s' by (simp_all add: counted_def holds_sub_def)
    moreover have "one_live s'"
      by (rule no_live_one_live) (simp add: s' nolive)
    ultimately show ?thesis using nolive by (simp add: wired_def s')
  qed
qed

lemma wired_subscribed:
  assumes "wired s" and "blockSubscription_returns outcome s = Returns s'"
  shows "wired s'"
proof -
  from assms(1) have w: "counted s" "holds_sub s" "one_live s"
    by (simp_all add: wired_def)
  show ?thesis
  proof (cases outcome)
    case None
    from blockSubscription_returns_effect [OF assms(2)] None
    have c: "control s = Subscribing"
      and s': "s' = s\<lparr>sub := Some (length (subscriptions s)),
                   subscriptions := subscriptions s @ [Live],
                   control := Listening,
                   history := history s @
                     [(now s, Observer, Subscribed (length (subscriptions s)))]\<rparr>"
      by simp_all
    from w(1,2) c have "counted s'" "holds_sub s'"
      unfolding s' by (simp_all add: counted_def holds_sub_def)
    moreover have "one_live s'"
      unfolding s' using c
      by (intro one_liveI) (auto simp: nth_append dest: one_liveD [OF w(3)] split: if_splits)
    ultimately show ?thesis by (simp add: wired_def)
  next
    case (Some err)
    from blockSubscription_returns_effect [OF assms(2)] Some
    have c: "control s = Subscribing"
      and s': "s' = s\<lparr>sub := None,
                   control := RetryWait (now s + chainHeadsObserverSubscribeTick),
                   history := history s @ [(now s, Observer, Criticalf_log err)]\<rparr>"
      by simp_all
    from w(1,2) c have "counted s'" "holds_sub s'"
      unfolding s' by (simp_all add: counted_def holds_sub_def)
    moreover have "one_live s'"
      unfolding s' using c
      by (intro one_liveI) (auto dest: one_liveD [OF w(3)])
    ultimately show ?thesis by (simp add: wired_def)
  qed
qed

lemma wired_err:
  assumes "wired s" and "select_err s = Returns s'"
  shows "wired s'"
proof -
  from select_err_effect [OF assms(2)] obtain p err where
    c: "control s = Listening" "sub s = Some p" "p < length (subscriptions s)"
       "subscriptions s ! p = Failed err"
    and s': "s' = s\<lparr>sub := None,
                 control := RetryWait (now s + chainHeadsObserverSubscribeTick),
                 history := history s @ [(now s, Observer, Errorf_log err)]\<rparr>"
    by blast
  from assms(1) have w: "counted s" "holds_sub s" "one_live s"
    by (simp_all add: wired_def)
  from w(1,2) c have "counted s'" "holds_sub s'"
    unfolding s' by (simp_all add: counted_def holds_sub_def)
  moreover have "one_live s'"
    unfolding s' using c
    by (intro one_liveI) (auto dest: one_liveD [OF w(3)])
  ultimately show ?thesis by (simp add: wired_def)
qed

lemma wired_sigClose_update:
  "wired s \<Longrightarrow> wired (s\<lparr>sigClose := (sigClose s)\<lparr>buf := b\<rparr>\<rparr>)"
  by (erule wired_frame) simp_all

lemma wired_close:
  assumes "wired s" and "select_sigClose s = Returns s'"
  shows "wired s'"
proof -
  from select_sigClose_effect [OF assms(2)] obtain v rest where
    a: "at_select s"
    and e: "observer_exit (s\<lparr>sigClose := (sigClose s)\<lparr>buf := rest\<rparr>\<rparr>) = Returns s'"
    by blast
  from a have "control (s\<lparr>sigClose := (sigClose s)\<lparr>buf := rest\<rparr>\<rparr>) \<noteq> Exited"
    by (auto simp: at_select_def)
  from wired_exit [OF wired_sigClose_update [OF assms(1)] this e]
  show ?thesis by simp
qed

lemma parked_not_Exited: "parked s \<Longrightarrow> control s \<noteq> Exited"
  by (auto simp: parked_def)

lemma wired_send:
  assumes "wired s" and "sigClose_send s = Returns s'"
  shows "wired s'"
proof -
  from sigClose_send_effect [OF assms(2)]
  consider "parked s" "observer_exit s = Returns s'"
    | "s' = s\<lparr>sigClose := (sigClose s)\<lparr>buf := buf (sigClose s) @ [True]\<rparr>\<rparr>"
    by blast
  then show ?thesis
  proof cases
    case 1
    from wired_exit [OF assms(1) parked_not_Exited [OF 1(1)] 1(2)] show ?thesis by simp
  next
    case 2
    show ?thesis unfolding 2 by (rule wired_sigClose_update [OF assms(1)])
  qed
qed

lemma wired_step: "wired s \<Longrightarrow> step e s = Returns s' \<Longrightarrow> wired s'"
  by (cases e)
     (auto intro: wired_subscribed wired_close wired_timer wired_err wired_fails
        wired_head wired_reader wired_send wired_wait wired_time)

lemma wired_execute: "wired s \<Longrightarrow> execute es s = Returns s' \<Longrightarrow> wired s'"
proof (induction es arbitrary: s)
  case Nil
  then show ?case by simp
next
  case (Cons e es)
  from Cons.prems(2) obtain s1 where "step e s = Returns s1" "execute es s1 = Returns s'"
    by (auto simp: and_then_Returns)
  with Cons.IH wired_step [OF Cons.prems(1)] show ?case by blast
qed

lemma wired_reachable: "reachable s \<Longrightarrow> wired s"
  unfolding reachable_def using wired_New wired_execute by blast

end
